theory Spec2Isabelle
  imports Main "HOL-Library.Word" "HOL-Library.Sublist"
begin

section \<open>multi-server.c: a shallow embedding\<close>

text \<open>
  The repository holds two versions of \<^verbatim>\<open>multi-server.c\<close>: one that forks a child per
  connection and keeps request statistics in shared memory (suffix \<open>_fork\<close> below), and one
  that serves connections from a pool of threads fed by a blocking queue (suffix \<open>_thr\<close>).
  C strings are \<open>string\<close>s without the terminating NUL, a pointer that may be \<^verbatim>\<open>NULL\<close> is an
  \<open>option\<close>, the client's byte stream is a \<open>string\<close> whose end is EOF, and what the server
  hands to \<^verbatim>\<open>send()\<close> is collected in an output \<open>string\<close>.
\<close>

subsection \<open>Characters and C library functions\<close>

definition NUL :: char where "NUL = CHR 0x00"
definition TAB :: char where "TAB = CHR 0x09"
definition LF :: char where "LF = CHR 0x0A"
definition CR :: char where "CR = CHR 0x0D"
definition DQUOTE :: char where "DQUOTE = CHR 0x22"

definition CRLF :: string where "CRLF = [CR, LF]"

text \<open>The contents of a \<^verbatim>\<open>char\<close> buffer read as a C string: everything before the first NUL.\<close>

definition cstr :: "string \<Rightarrow> string" where
  "cstr buf = takeWhile (\<lambda>c. c \<noteq> NUL) buf"

text \<open>C's integer division truncates towards zero.\<close>

definition c_div :: "int \<Rightarrow> int \<Rightarrow> int" where
  "c_div a b = sgn a * sgn b * (\<bar>a\<bar> div \<bar>b\<bar>)"

text \<open>\<^verbatim>\<open>printf("%d")\<close>: decimal digits, most significant first, with a minus sign if negative.\<close>

definition digit_char :: "nat \<Rightarrow> char" where
  "digit_char d = ''0123456789'' ! d"

fun dec_nat :: "nat \<Rightarrow> string" where
  "dec_nat n = (if n < 10 then [digit_char n] else dec_nat (n div 10) @ [digit_char (n mod 10)])"

declare dec_nat.simps [simp del]

definition fmt_d :: "int \<Rightarrow> string" where
  "fmt_d i = (if i < 0 then CHR ''-'' # dec_nat (nat (- i)) else dec_nat (nat i))"

text \<open>\<^verbatim>\<open>printf("%s")\<close>; glibc prints \<^verbatim>\<open>(null)\<close> for a \<^verbatim>\<open>NULL\<close> argument.\<close>

definition fmt_s :: "string option \<Rightarrow> string" where
  "fmt_s p = (case p of None \<Rightarrow> ''(null)'' | Some s \<Rightarrow> s)"

text \<open>
  \<^verbatim>\<open>fgets(buf, n, fp)\<close> on the remaining input: \<^verbatim>\<open>NULL\<close> at EOF, otherwise at most \<open>n - 1\<close>
  characters, stopping after the first newline; the second component is the input left.
\<close>

definition fgets :: "nat \<Rightarrow> string \<Rightarrow> (string \<times> string) option" where
  "fgets n s =
     (if s = [] then None
      else let l = take (n - 1) (takeWhile (\<lambda>c. c \<noteq> LF) s @ take 1 (dropWhile (\<lambda>c. c \<noteq> LF) s))
           in Some (l, drop (length l) s))"

text \<open>
  \<^verbatim>\<open>strtok\<close> with the separators \<^verbatim>\<open>"\t \r\n"\<close>: skip separators, return the token up to the
  next separator (or \<^verbatim>\<open>NULL\<close> if nothing is left) and the position where the next call
  continues.
\<close>

definition is_sep :: "char \<Rightarrow> bool" where
  "is_sep c = (c = TAB \<or> c = CHR '' '' \<or> c = CR \<or> c = LF)"

definition strtok :: "string \<Rightarrow> string option \<times> string" where
  "strtok s =
     (let s' = dropWhile is_sep s
      in if s' = [] then (None, [])
         else (Some (takeWhile (\<lambda>c. \<not> is_sep c) s'), drop 1 (dropWhile (\<lambda>c. \<not> is_sep c) s')))"

text \<open>\<^verbatim>\<open>strstr(haystack, needle)\<close>: the rest of the string from the first occurrence on.\<close>

fun strstr :: "string \<Rightarrow> string \<Rightarrow> string option" where
  "strstr [] needle = (if needle = [] then Some [] else None)"
| "strstr (c # cs) needle = (if prefix needle (c # cs) then Some (c # cs) else strstr cs needle)"

subsection \<open>Status codes and reason phrases\<close>

text \<open>The table \<^verbatim>\<open>HTTP_StatusCodes\<close>, with its closing entry \<^verbatim>\<open>{ 0, NULL }\<close>.\<close>

definition HTTP_StatusCodes :: "(int \<times> string option) list" where
  "HTTP_StatusCodes =
     [(200, Some ''OK''),
      (201, Some ''Created''),
      (202, Some ''Accepted''),
      (204, Some ''No Content''),
      (301, Some ''Moved Permanently''),
      (302, Some ''Moved Temporarily''),
      (304, Some ''Not Modified''),
      (400, Some ''Bad Request''),
      (401, Some ''Unauthorized''),
      (403, Some ''Forbidden''),
      (404, Some ''Not Found''),
      (500, Some ''Internal Server Error''),
      (501, Some ''Not Implemented''),
      (502, Some ''Bad Gateway''),
      (503, Some ''Service Unavailable''),
      (0, None)]"

text \<open>
  Why a function of the model does not return a result: a fault of the C program (a read
  behind the end of an array, a \<^verbatim>\<open>NULL\<close> or dangling pointer that is followed, a failed
  \<^verbatim>\<open>malloc\<close>, which ends in \<^verbatim>\<open>die\<close>), a call that blocks and is never woken up, or a list
  of operations that is no run of the program because \<^verbatim>\<open>malloc\<close> would return a block that
  is still allocated.
\<close>

datatype halt = OutOfBounds | NullDeref | MallocFailed | WouldBlock | LiveBlock

text \<open>
  The loop of \<^verbatim>\<open>getReasonPhrase\<close> from index \<open>i\<close> on, as a walk down the rest of the table.
  The result is the returned pointer (\<open>None\<close> is \<^verbatim>\<open>NULL\<close>).
\<close>

fun reason_loop :: "(int \<times> string option) list \<Rightarrow> int \<Rightarrow> halt + string option" where
  "reason_loop [] statusCode = Inl OutOfBounds"
| "reason_loop ((status, reason) # rest) statusCode =
     (if status > 0
      then (if status = statusCode then Inr reason else reason_loop rest statusCode)
      else Inr (Some ''Unknown Status Code''))"

definition getReasonPhrase :: "int \<Rightarrow> halt + string option" where
  "getReasonPhrase statusCode = reason_loop HTTP_StatusCodes statusCode"

subsection \<open>What both versions share\<close>

text \<open>
  What the server sees of the machine it runs on: whether \<^verbatim>\<open>stat\<close> finds a directory at a
  path, the contents \<^verbatim>\<open>fopen(path, "rb")\<close> gives access to (\<open>None\<close> when it fails), what
  \<^verbatim>\<open>list_directory\<close> reads from the \<^verbatim>\<open>ls -al\<close> child and sends on, and the bytes that lie
  behind the array \<^verbatim>\<open>statistics\<close> in \<^verbatim>\<open>handleFileRequest\<close> up to the next NUL (the array
  has 11 elements for the 11 characters of \<^verbatim>\<open>/statistics\<close>, so it holds no terminator and
  \<^verbatim>\<open>strcmp\<close> reads on).
\<close>

record env =
  is_dir :: "string \<Rightarrow> bool"
  fopen_rb :: "string \<Rightarrow> string option"
  ls_al :: "string \<Rightarrow> string"
  after_statistics :: string

type_synonym in_addr = "8 word \<times> 8 word \<times> 8 word \<times> 8 word"

fun inet_ntoa :: "in_addr \<Rightarrow> string" where
  "inet_ntoa (a, b, c, d) =
     dec_nat (unat a) @ ''.'' @ dec_nat (unat b) @ ''.'' @ dec_nat (unat c) @ ''.'' @ dec_nat (unat d)"

text \<open>
  The buffer \<^verbatim>\<open>sendStatusLine\<close> builds: status line, blank line and, for a status other than
  200, the HTML body. Both versions build it with the same statements.
\<close>

definition status_buf :: "int \<Rightarrow> string \<Rightarrow> string" where
  "status_buf statusCode reasonPhrase =
     ''HTTP/1.0 '' @ fmt_d statusCode @ '' '' @ reasonPhrase @ CRLF @ CRLF @
     (if statusCode \<noteq> 200
      then ''<html><body>'' @ [LF] @
           ''<h1>'' @ fmt_d statusCode @ '' '' @ reasonPhrase @ ''</h1>'' @ [LF] @
           ''</body></html>'' @ [LF]
      else [])"

text \<open>The loop that skips the header lines: \<open>None\<close> when the input ends before a blank line.\<close>

function skip_headers :: "string \<Rightarrow> string option" where
  "skip_headers s =
     (case fgets 1000 s of
        None \<Rightarrow> None
      | Some (line, rest) \<Rightarrow>
          if cstr line = CRLF \<or> cstr line = [LF] then Some rest else skip_headers rest)"
  by pat_completeness auto
termination
proof (relation "measure length")
  show "wf (measure length)" by simp
next
  fix s :: string and x2 line rest
  assume "fgets 1000 s = Some x2" and "(line, rest) = x2"
  then have "length rest < length s"
    by (cases s) (auto simp: fgets_def Let_def split: if_splits)
  then show "(rest, s) \<in> measure length" by simp
qed

declare skip_headers.simps [simp del]

text \<open>
  The loop that sends the file in pieces of \<^verbatim>\<open>DISK_IO_BUF_SIZE\<close> bytes, every \<^verbatim>\<open>send\<close>
  taking the whole piece.
\<close>

definition DISK_IO_BUF_SIZE :: nat where "DISK_IO_BUF_SIZE = 4096"

function send_file :: "string \<Rightarrow> string \<Rightarrow> string" where
  "send_file content out =
     (let buf = take DISK_IO_BUF_SIZE content
      in if length buf > 0 then send_file (drop DISK_IO_BUF_SIZE content) (out @ buf) else out)"
  by pat_completeness auto
termination
  by (relation "measure (\<lambda>(content, out). length content)") (auto simp: DISK_IO_BUF_SIZE_def)

declare send_file.simps [simp del]

text \<open>The path \<^verbatim>\<open>handleFileRequest\<close> composes from the web root and the request URI.\<close>

definition file_path :: "string \<Rightarrow> string \<Rightarrow> string" where
  "file_path webRoot requestURI =
     (let file = webRoot @ requestURI
      in if file \<noteq> [] \<and> last file = CHR ''/'' then file @ ''index.html'' else file)"

subsection \<open>The thread-pool version: one request\<close>

record response =
  status :: int
  sent :: string
  logged :: string

definition sendStatusLine_thr :: "int \<Rightarrow> string \<Rightarrow> halt + string" where
  "sendStatusLine_thr statusCode out =
     (case getReasonPhrase statusCode of
        Inl f \<Rightarrow> Inl f
      | Inr None \<Rightarrow> Inl NullDeref
      | Inr (Some reasonPhrase) \<Rightarrow> Inr (out @ status_buf statusCode reasonPhrase))"

definition handleFileRequest_thr :: "env \<Rightarrow> string \<Rightarrow> string \<Rightarrow> string \<Rightarrow> halt + int \<times> string" where
  "handleFileRequest_thr e webRoot requestURI out =
     (let file = file_path webRoot requestURI
      in if is_dir e file
         then (case sendStatusLine_thr 403 out of Inl f \<Rightarrow> Inl f | Inr out' \<Rightarrow> Inr (403, out'))
         else (case fopen_rb e file of
                 None \<Rightarrow>
                   (case sendStatusLine_thr 404 out of Inl f \<Rightarrow> Inl f | Inr out' \<Rightarrow> Inr (404, out'))
               | Some content \<Rightarrow>
                   (case sendStatusLine_thr 200 out of
                      Inl f \<Rightarrow> Inl f
                    | Inr out' \<Rightarrow> Inr (200, send_file content out'))))"

text \<open>The log line written at \<^verbatim>\<open>loop_end\<close>, and the end of the request.\<close>

definition loop_end_thr ::
  "in_addr \<Rightarrow> string option \<Rightarrow> string option \<Rightarrow> string option \<Rightarrow> int \<Rightarrow> string \<Rightarrow> halt + response" where
  "loop_end_thr clntAddr method requestURI httpVersion statusCode out =
     (case getReasonPhrase statusCode of
        Inl f \<Rightarrow> Inl f
      | Inr reason \<Rightarrow>
          Inr \<lparr>status = statusCode, sent = out,
               logged = inet_ntoa clntAddr @ '' '' @ [DQUOTE] @ fmt_s method @ '' '' @
                        fmt_s requestURI @ '' '' @ fmt_s httpVersion @ [DQUOTE] @ '' '' @
                        fmt_d statusCode @ '' '' @ fmt_s reason @ [LF]\<rparr>)"

text \<open>
  One turn of the loop of \<^verbatim>\<open>thr_worker\<close>, from the first \<^verbatim>\<open>fgets\<close> to \<^verbatim>\<open>loop_end\<close>, for a
  connection with the address \<open>clntAddr\<close> and the input \<open>input\<close>.
\<close>

definition thr_request :: "env \<Rightarrow> string \<Rightarrow> in_addr \<Rightarrow> string \<Rightarrow> halt + response" where
  "thr_request e webRoot clntAddr input =
     (case fgets 1000 input of
        None \<Rightarrow> loop_end_thr clntAddr (Some []) (Some []) (Some []) 400 []
      | Some (requestLine, rest) \<Rightarrow>
          let (method, p1) = strtok (cstr requestLine);
              (requestURI, p2) = strtok p1;
              (httpVersion, p3) = strtok p2;
              (extraThingsOnRequestLine, p4) = strtok p3;
              respond = (\<lambda>statusCode.
                 case sendStatusLine_thr statusCode [] of
                   Inl f \<Rightarrow> Inl f
                 | Inr out \<Rightarrow> loop_end_thr clntAddr method requestURI httpVersion statusCode out)
          in if method = None \<or> requestURI = None \<or> httpVersion = None \<or>
                extraThingsOnRequestLine \<noteq> None
             then respond 501
             else if method \<noteq> Some ''GET'' then respond 501
             else if httpVersion \<noteq> Some ''HTTP/1.0'' \<and> httpVersion \<noteq> Some ''HTTP/1.1''
             then respond 501
             else (case requestURI of
                     None \<Rightarrow> respond 400
                   | Some uri \<Rightarrow>
                       if take 1 uri \<noteq> ''/'' then respond 400
                       else if length uri \<ge> 3 \<and>
                               (drop (length uri - 3) uri = ''/..'' \<or> strstr uri ''/../'' \<noteq> None)
                       then respond 400
                       else (case skip_headers rest of
                               None \<Rightarrow> loop_end_thr clntAddr method requestURI httpVersion 400 []
                             | Some body \<Rightarrow>
                                 (case handleFileRequest_thr e webRoot uri [] of
                                    Inl f \<Rightarrow> Inl f
                                  | Inr (statusCode, out) \<Rightarrow>
                                      loop_end_thr clntAddr method requestURI httpVersion
                                        statusCode out))))"

subsection \<open>The fork version: statistics and one request\<close>

text \<open>
  \<^verbatim>\<open>struct reqstat\<close>, the counters in the shared mapping; they are C \<^verbatim>\<open>int\<close>s, read as signed
  32-bit values. The semaphore is left out: every access below happens between
  \<^verbatim>\<open>sem_wait\<close> and \<^verbatim>\<open>sem_post\<close> or by the one process that holds the connection.
\<close>

record reqstat =
  num_two :: "32 word"
  num_three :: "32 word"
  num_four :: "32 word"
  num_five :: "32 word"

text \<open>What \<^verbatim>\<open>main\<close> stores in the mapping before it accepts connections.\<close>

definition area_init :: reqstat where
  "area_init = \<lparr>num_two = 0, num_three = 0, num_four = 0, num_five = 0\<rparr>"

record fresponse = response +
  area :: reqstat

definition showstatistics :: "int \<Rightarrow> reqstat \<Rightarrow> string \<Rightarrow> string" where
  "showstatistics statusCode a out =
     out @ ''HTTP/1.0 '' @ fmt_d statusCode @ '' '' @ CRLF @ CRLF @
     ''<html><body>'' @ [LF] @
     ''<h1>Request Statistics</h1>'' @
     ''Number of 2XX : '' @ fmt_d (sint (num_two a)) @ '' '' @ [LF] @
     ''<br>Number of 3XX : '' @ fmt_d (sint (num_three a)) @ '' '' @ [LF] @
     ''<br>Number of 4XX : '' @ fmt_d (sint (num_four a)) @ '' '' @ [LF] @
     ''<br>Number of 5XX : '' @ fmt_d (sint (num_five a)) @ '' '' @ [LF] @
     ''<br>Sum : '' @ fmt_d (sint (num_two a + num_three a + num_four a + num_five a)) @ '' '' @ [LF] @
     ''</body></html>'' @ [LF]"

definition sendStatusLine_fork :: "int \<Rightarrow> reqstat \<times> string \<Rightarrow> halt + reqstat \<times> string" where
  "sendStatusLine_fork statusCode st =
     (let (a, out) = st;
          startnum = c_div statusCode 100;
          a' = (if startnum = 2 then a\<lparr>num_two := num_two a + 1\<rparr>
                else if startnum = 3 then a\<lparr>num_three := num_three a + 1\<rparr>
                else if startnum = 4 then a\<lparr>num_four := num_four a + 1\<rparr>
                else if startnum = 5 then a\<lparr>num_five := num_five a + 1\<rparr>
                else a)
      in case getReasonPhrase statusCode of
           Inl f \<Rightarrow> Inl f
         | Inr None \<Rightarrow> Inl NullDeref
         | Inr (Some reasonPhrase) \<Rightarrow> Inr (a', out @ status_buf statusCode reasonPhrase))"

definition handleFileRequest_fork ::
  "env \<Rightarrow> string \<Rightarrow> string \<Rightarrow> reqstat \<times> string \<Rightarrow> halt + int \<times> reqstat \<times> string" where
  "handleFileRequest_fork e webRoot requestURI st =
     (let (a, out) = st
      in if ''/statistics'' @ after_statistics e = requestURI
         then (let a' = a\<lparr>num_two := num_two a + 1\<rparr>
               in Inr (200, a', showstatistics 200 a' out))
         else
           let file = file_path webRoot requestURI
           in if is_dir e file
              then Inr (200, a\<lparr>num_two := num_two a + 1\<rparr>, out @ ls_al e file)
              else (case fopen_rb e file of
                      None \<Rightarrow>
                        (case sendStatusLine_fork 404 (a, out) of
                           Inl f \<Rightarrow> Inl f
                         | Inr (a', out') \<Rightarrow> Inr (404, a', out'))
                    | Some content \<Rightarrow>
                        (case sendStatusLine_fork 200 (a, out) of
                           Inl f \<Rightarrow> Inl f
                         | Inr (a', out') \<Rightarrow> Inr (200, a', send_file content out'))))"

text \<open>The log line of the child, which has the process id after the address.\<close>

definition loop_end_fork ::
  "in_addr \<Rightarrow> int \<Rightarrow> string option \<Rightarrow> string option \<Rightarrow> string option \<Rightarrow> int \<Rightarrow>
   reqstat \<times> string \<Rightarrow> halt + fresponse" where
  "loop_end_fork clntAddr pid method requestURI httpVersion statusCode st =
     (case getReasonPhrase statusCode of
        Inl f \<Rightarrow> Inl f
      | Inr reason \<Rightarrow>
          Inr \<lparr>status = statusCode, sent = snd st,
               logged = inet_ntoa clntAddr @ '' ('' @ fmt_d pid @ '') '' @ [DQUOTE] @
                        fmt_s method @ '' '' @ fmt_s requestURI @ '' '' @ fmt_s httpVersion @
                        [DQUOTE] @ '' '' @ fmt_d statusCode @ '' '' @ fmt_s reason @ [LF],
               area = fst st\<rparr>)"

text \<open>
  The child branch of \<^verbatim>\<open>main\<close>, from the first \<^verbatim>\<open>fgets\<close> to \<^verbatim>\<open>loop_end\<close>: \<open>clntAddr\<close> is
  what \<^verbatim>\<open>accept\<close> stored, \<open>pid\<close> what \<^verbatim>\<open>getpid\<close> returns, \<open>a\<close> the counters when the child
  starts.
\<close>

definition main_child ::
  "env \<Rightarrow> string \<Rightarrow> in_addr \<Rightarrow> int \<Rightarrow> reqstat \<Rightarrow> string \<Rightarrow> halt + fresponse" where
  "main_child e webRoot clntAddr pid a input =
     (case fgets 1000 input of
        None \<Rightarrow> loop_end_fork clntAddr pid (Some []) (Some []) (Some []) 400 (a, [])
      | Some (requestLine, rest) \<Rightarrow>
          let (method, p1) = strtok (cstr requestLine);
              (requestURI, p2) = strtok p1;
              (httpVersion, p3) = strtok p2;
              (extraThingsOnRequestLine, p4) = strtok p3;
              respond = (\<lambda>statusCode.
                 case sendStatusLine_fork statusCode (a, []) of
                   Inl f \<Rightarrow> Inl f
                 | Inr st \<Rightarrow> loop_end_fork clntAddr pid method requestURI httpVersion statusCode st)
          in if method = None \<or> requestURI = None \<or> httpVersion = None \<or>
                extraThingsOnRequestLine \<noteq> None
             then respond 501
             else if method \<noteq> Some ''GET'' then respond 501
             else if httpVersion \<noteq> Some ''HTTP/1.0'' \<and> httpVersion \<noteq> Some ''HTTP/1.1''
             then respond 501
             else (case requestURI of
                     None \<Rightarrow> respond 400
                   | Some uri \<Rightarrow>
                       if take 1 uri \<noteq> ''/'' then respond 400
                       else if length uri \<ge> 3 \<and>
                               (drop (length uri - 3) uri = ''/..'' \<or> strstr uri ''/../'' \<noteq> None)
                       then respond 400
                       else (case skip_headers rest of
                               None \<Rightarrow>
                                 loop_end_fork clntAddr pid method requestURI httpVersion 400 (a, [])
                             | Some body \<Rightarrow>
                                 (case handleFileRequest_fork e webRoot uri (a, []) of
                                    Inl f \<Rightarrow> Inl f
                                  | Inr (statusCode, st) \<Rightarrow>
                                      loop_end_fork clntAddr pid method requestURI httpVersion
                                        statusCode st))))"

text \<open>
  A run of the fork version: the connections in the order in which their children update
  the counters, each with its address, process id and input. Every child touches the
  counters in one critical section, so this order is all the counters depend on. The
  result is the children's results and the counters at the end.
\<close>

fun serve_fork ::
  "env \<Rightarrow> string \<Rightarrow> reqstat \<Rightarrow> (in_addr \<times> int \<times> string) list \<Rightarrow>
   halt + fresponse list \<times> reqstat" where
  "serve_fork e webRoot a [] = Inr ([], a)"
| "serve_fork e webRoot a ((clntAddr, pid, input) # conns) =
     (case main_child e webRoot clntAddr pid a input of
        Inl f \<Rightarrow> Inl f
      | Inr r \<Rightarrow>
          (case serve_fork e webRoot (area r) conns of
             Inl f \<Rightarrow> Inl f
           | Inr (rs, a') \<Rightarrow> Inr (r # rs, a')))"

subsection \<open>The thread-pool version: the queue of connections\<close>

text \<open>
  \<^verbatim>\<open>struct message\<close> and \<^verbatim>\<open>struct queue\<close>. The messages live in a heap, a map from addresses
  to the blocks that are allocated; \<^verbatim>\<open>length\<close> is an \<^verbatim>\<open>unsigned int\<close>. Mutex and condition
  variable are left out: the functions below are the critical sections, one at a time.
\<close>

type_synonym addr = nat

record message =
  sock :: int
  next_m :: "addr option"

type_synonym heap = "addr \<Rightarrow> message option"

record queue =
  first :: "addr option"
  last_q :: "addr option"
  length_q :: "32 word"

definition queue_init :: "queue \<Rightarrow> queue" where
  "queue_init q = q\<lparr>first := None, last_q := None, length_q := 0\<rparr>"

text \<open>
  \<^verbatim>\<open>queue_put\<close>, with the pointer \<open>pmsg\<close> that \<^verbatim>\<open>malloc\<close> returns. Following \<^verbatim>\<open>q->last\<close> when it
  is \<^verbatim>\<open>NULL\<close> or points to no allocated block is a fault.
\<close>

definition queue_put :: "queue \<times> heap \<Rightarrow> addr option \<Rightarrow> int \<Rightarrow> halt + queue \<times> heap" where
  "queue_put st pmsg s =
     (let (q, h) = st
      in case pmsg of
           None \<Rightarrow> Inl MallocFailed
         | Some p \<Rightarrow>
             let h1 = h(p \<mapsto> \<lparr>sock = s, next_m = None\<rparr>)
             in if length_q q = 0
                then Inr (q\<lparr>first := Some p, last_q := Some p, length_q := length_q q + 1\<rparr>, h1)
                else (case last_q q of
                        None \<Rightarrow> Inl NullDeref
                      | Some l \<Rightarrow>
                          (case h1 l of
                             None \<Rightarrow> Inl NullDeref
                           | Some m \<Rightarrow>
                               Inr (q\<lparr>last_q := Some p, length_q := length_q q + 1\<rparr>,
                                    h1(l \<mapsto> m\<lparr>next_m := Some p\<rparr>)))))"

text \<open>
  \<^verbatim>\<open>queue_get\<close>. On an empty queue the caller waits on the condition variable; with no
  other thread in the model it waits for ever.
\<close>

definition queue_get :: "queue \<times> heap \<Rightarrow> halt + int \<times> (queue \<times> heap)" where
  "queue_get st =
     (let (q, h) = st
      in if length_q q = 0 then Inl WouldBlock
         else (case first q of
                 None \<Rightarrow> Inl NullDeref
               | Some pmsg \<Rightarrow>
                   (case h pmsg of
                      None \<Rightarrow> Inl NullDeref
                    | Some m \<Rightarrow>
                        Inr (sock m,
                             (q\<lparr>first := next_m m,
                                last_q := (if length_q q = 1 then None else last_q q),
                                length_q := length_q q - 1\<rparr>,
                              h(pmsg := None))))))"

text \<open>
  A list of queue operations in the order of their critical sections: \<open>Put pmsg s\<close> is
  \<^verbatim>\<open>queue_put(q, s)\<close> in which \<^verbatim>\<open>malloc\<close> returns \<open>pmsg\<close>, \<open>Get\<close> is \<^verbatim>\<open>queue_get(q)\<close>. The
  result of a run is the sockets the \<open>Get\<close>s returned, in order, and the state at the end.
\<close>

datatype qop = Put "addr option" int | Get

fun run :: "qop list \<Rightarrow> queue \<times> heap \<Rightarrow> halt + int list \<times> (queue \<times> heap)" where
  "run [] st = Inr ([], st)"
| "run (Put pmsg s # ops) st =
     (if (case pmsg of None \<Rightarrow> False | Some p \<Rightarrow> snd st p \<noteq> None) then Inl LiveBlock
      else (case queue_put st pmsg s of
              Inl f \<Rightarrow> Inl f
            | Inr st' \<Rightarrow> run ops st'))"
| "run (Get # ops) st =
     (case queue_get st of
        Inl f \<Rightarrow> Inl f
      | Inr (s, st') \<Rightarrow>
          (case run ops st' of
             Inl f \<Rightarrow> Inl f
           | Inr (socks, st'') \<Rightarrow> Inr (s # socks, st'')))"

subsection \<open>The address of a connection\<close>

text \<open>
  The address \<^verbatim>\<open>thr_worker\<close> logs is the one \<^verbatim>\<open>getsockname\<close> stores, the address the
  connection's socket is bound to on the server; the child of the fork version logs the
  one \<^verbatim>\<open>accept\<close> stored, the peer's.
\<close>

record connection =
  peer_addr :: in_addr
  sock_addr :: in_addr
  incoming :: string

definition thr_worker_turn :: "env \<Rightarrow> string \<Rightarrow> connection \<Rightarrow> halt + response" where
  "thr_worker_turn e webRoot c = thr_request e webRoot (sock_addr c) (incoming c)"

definition main_turn :: "env \<Rightarrow> string \<Rightarrow> int \<Rightarrow> reqstat \<Rightarrow> connection \<Rightarrow> halt + fresponse" where
  "main_turn e webRoot pid a c = main_child e webRoot (peer_addr c) pid a (incoming c)"

subsection \<open>Notions of the specification and of the statements\<close>

text \<open>
  The whitespace-separated tokens of a line, read off the specification and not off
  \<^verbatim>\<open>strtok\<close>: the line is cut at every tab, space, carriage return and newline, and the
  empty pieces are dropped.
\<close>

fun split_ws :: "string \<Rightarrow> string \<Rightarrow> string list" where
  "split_ws cur [] = (if cur = [] then [] else [cur])"
| "split_ws cur (c # cs) =
     (if is_sep c then (if cur = [] then split_ws [] cs else cur # split_ws [] cs)
      else split_ws (cur @ [c]) cs)"

definition whitespace_tokens :: "string \<Rightarrow> string list" where
  "whitespace_tokens s = split_ws [] s"

text \<open>
  The error response of the specification's wire protocol: the status line
  \<^verbatim>\<open>HTTP/1.0 <code> <reason>\<close>, a blank line, and the HTML body naming code and reason.
\<close>

definition error_response :: "string \<Rightarrow> string \<Rightarrow> string" where
  "error_response code reason =
     ''HTTP/1.0 '' @ code @ '' '' @ reason @ CRLF @ CRLF @
     ''<html><body>'' @ [LF] @ ''<h1>'' @ code @ '' '' @ reason @ ''</h1>'' @ [LF] @
     ''</body></html>'' @ [LF]"

text \<open>
  A request lifecycle was answered when it did not end with status 400 and nothing sent;
  \<open>bucket_count d\<close> is the number of answered lifecycles whose status code has the hundreds
  digit \<open>d\<close>.
\<close>

definition answered :: "fresponse \<Rightarrow> bool" where
  "answered r = (\<not> (status r = 400 \<and> sent r = []))"

definition bucket_count :: "int \<Rightarrow> fresponse list \<Rightarrow> nat" where
  "bucket_count d rs = length (filter (\<lambda>r. answered r \<and> c_div (status r) 100 = d) rs)"

text \<open>The bucket of a hundreds digit, incremented.\<close>

definition count_status :: "int \<Rightarrow> reqstat \<Rightarrow> reqstat" where
  "count_status d a =
     (if d = 2 then a\<lparr>num_two := num_two a + 1\<rparr>
      else if d = 3 then a\<lparr>num_three := num_three a + 1\<rparr>
      else if d = 4 then a\<lparr>num_four := num_four a + 1\<rparr>
      else if d = 5 then a\<lparr>num_five := num_five a + 1\<rparr>
      else a)"


text \<open>
  The queue as the specification sees it. \<open>nodes h a n\<close> are the \<open>n\<close> messages linked from
  \<open>a\<close> on, each with its address and socket, provided the \<open>n\<close>-th link is \<^verbatim>\<open>NULL\<close>. The
  invariant: \<^verbatim>\<open>length\<close> messages are linked from \<^verbatim>\<open>first\<close>, and \<^verbatim>\<open>last\<close> is the last of them, or
  \<^verbatim>\<open>NULL\<close> when there is none. \<open>queued\<close> are the sockets in the queue, oldest first.
\<close>

fun nodes :: "heap \<Rightarrow> addr option \<Rightarrow> nat \<Rightarrow> (addr \<times> int) list option" where
  "nodes h a 0 = (if a = None then Some [] else None)"
| "nodes h a (Suc n) =
     (case a of
        None \<Rightarrow> None
      | Some p \<Rightarrow>
          (case h p of
             None \<Rightarrow> None
           | Some m \<Rightarrow> map_option (Cons (p, sock m)) (nodes h (next_m m) n)))"

definition queue_inv :: "queue \<times> heap \<Rightarrow> bool" where
  "queue_inv st =
     (let (q, h) = st
      in case nodes h (first q) (unat (length_q q)) of
           None \<Rightarrow> False
         | Some ps \<Rightarrow> last_q q = (if ps = [] then None else Some (fst (last ps))))"

definition queued :: "queue \<times> heap \<Rightarrow> int list" where
  "queued st =
     (let (q, h) = st
      in case nodes h (first q) (unat (length_q q)) of None \<Rightarrow> [] | Some ps \<Rightarrow> map snd ps)"

text \<open>The sockets a list of operations puts, in order.\<close>

fun pushed :: "qop list \<Rightarrow> int list" where
  "pushed [] = []"
| "pushed (Put pmsg s # ops) = s # pushed ops"
| "pushed (Get # ops) = pushed ops"

text \<open>
  \<open>fits n ops\<close>: starting with \<open>n\<close> messages in the queue, the operations never make
  \<^verbatim>\<open>length\<close> wrap around.
\<close>

fun fits :: "nat \<Rightarrow> qop list \<Rightarrow> bool" where
  "fits n [] = True"
| "fits n (Put pmsg s # ops) = (Suc n < 2 ^ 32 \<and> fits (Suc n) ops)"
| "fits n (Get # ops) = fits (n - 1) ops"




text \<open>A machine with an empty document root, for the concrete runs below.\<close>

definition no_files :: env where
  "no_files = \<lparr>is_dir = (\<lambda>path. False), fopen_rb = (\<lambda>path. None), ls_al = (\<lambda>path. []),
     after_statistics = []\<rparr>"

text \<open>The same machine with a byte other than NUL behind the array \<^verbatim>\<open>statistics\<close>.\<close>

definition unterminated :: env where
  "unterminated = \<lparr>is_dir = (\<lambda>path. False), fopen_rb = (\<lambda>path. None), ls_al = (\<lambda>path. []),
     after_statistics = [CHR 0x01]\<rparr>"

text \<open>
  Three connections for a concrete run: a request for a file that is not there, a
  connection that is closed at once, and a \<^verbatim>\<open>POST\<close>.
\<close>

definition three_connections :: "(in_addr \<times> int \<times> string) list" where
  "three_connections =
     [((127, 0, 0, 1), 4242, ''GET /missing.html HTTP/1.0'' @ CRLF @ CRLF),
      ((127, 0, 0, 1), 4243, []),
      ((127, 0, 0, 1), 4244, ''POST / HTTP/1.0'' @ CRLF @ CRLF)]"


definition one_queued :: "queue \<times> heap" where
  "one_queued =
     (\<lparr>first = Some 0, last_q = Some 0, length_q = 1\<rparr>,
      [0 \<mapsto> \<lparr>sock = 7, next_m = None\<rparr>])"

subsection \<open>Tokens\<close>

lemma split_ws_token: "\<forall>c\<in>set t. \<not> is_sep c \<Longrightarrow> split_ws cur (t @ r) = split_ws (cur @ t) r"
  by (induction t arbitrary: cur) auto

lemma split_ws_skip: "split_ws [] (dropWhile is_sep s) = split_ws [] s"
  by (induction s) auto

lemma split_ws_nonempty: "cur \<noteq> [] \<Longrightarrow> split_ws cur s \<noteq> []"
  by (induction s arbitrary: cur) auto

lemma strtok_Nil:
  assumes a: "whitespace_tokens s = []"
  shows "strtok s = (None, [])"
proof -
  define s' where "s' = dropWhile is_sep s"
  define t where "t = takeWhile (\<lambda>c. \<not> is_sep c) s'"
  define r where "r = dropWhile (\<lambda>c. \<not> is_sep c) s'"
  have s': "s' = t @ r" by (simp add: t_def r_def)
  have tn: "\<forall>c\<in>set t. \<not> is_sep c" unfolding t_def by (auto dest: set_takeWhileD)
  have "split_ws [] s' = []" using a by (simp add: whitespace_tokens_def s'_def split_ws_skip)
  then have e: "split_ws t r = []" using split_ws_token[OF tn, of "[]" r] by (simp add: s')
  have "s' = []"
  proof (rule ccontr)
    assume ne: "s' \<noteq> []"
    then have "\<not> is_sep (hd s')" unfolding s'_def by (metis hd_dropWhile)
    then have "t \<noteq> []" using ne unfolding t_def by (cases s') auto
    then show False using e split_ws_nonempty by blast
  qed
  then show ?thesis by (simp add: strtok_def s'_def)
qed

lemma strtok_Cons:
  assumes a: "whitespace_tokens s = tk # ts"
  shows "\<exists>r. strtok s = (Some tk, r) \<and> whitespace_tokens r = ts"
proof -
  define s' where "s' = dropWhile is_sep s"
  define t where "t = takeWhile (\<lambda>c. \<not> is_sep c) s'"
  define r where "r = dropWhile (\<lambda>c. \<not> is_sep c) s'"
  have s': "s' = t @ r" by (simp add: t_def r_def)
  have tn: "\<forall>c\<in>set t. \<not> is_sep c" unfolding t_def by (auto dest: set_takeWhileD)
  have sp: "split_ws [] s' = tk # ts"
    using a by (simp add: whitespace_tokens_def s'_def split_ws_skip)
  then have e: "split_ws t r = tk # ts" using split_ws_token[OF tn, of "[]" r] by (simp add: s')
  have ne: "s' \<noteq> []" using sp by auto
  have st: "strtok s = (Some t, drop 1 r)"
    using ne by (simp add: strtok_def s'_def t_def r_def Let_def)
  have "tk = t \<and> whitespace_tokens (drop 1 r) = ts"
  proof (cases r)
    case Nil
    then show ?thesis using e by (auto simp: whitespace_tokens_def split: if_splits)
  next
    case (Cons c cs)
    then have "is_sep c" unfolding r_def by (metis hd_dropWhile list.sel(1) list.distinct(1))
    moreover have "t \<noteq> []"
    proof -
      have "\<not> is_sep (hd s')" using ne unfolding s'_def by (metis hd_dropWhile)
      then show ?thesis using ne unfolding t_def by (cases s') auto
    qed
    ultimately show ?thesis using e Cons by (auto simp: whitespace_tokens_def)
  qed
  then show ?thesis using st by auto
qed

lemma strtok_three:
  assumes "whitespace_tokens s = [m, u, v]"
  shows "\<exists>p1 p2 p3. strtok s = (Some m, p1) \<and> strtok p1 = (Some u, p2) \<and>
           strtok p2 = (Some v, p3) \<and> strtok p3 = (None, [])"
proof -
  from strtok_Cons[OF assms] obtain p1
    where 1: "strtok s = (Some m, p1)" "whitespace_tokens p1 = [u, v]" by blast
  from strtok_Cons[OF 1(2)] obtain p2
    where 2: "strtok p1 = (Some u, p2)" "whitespace_tokens p2 = [v]" by blast
  from strtok_Cons[OF 2(2)] obtain p3
    where 3: "strtok p2 = (Some v, p3)" "whitespace_tokens p3 = []" by blast
  from strtok_Nil[OF 3(2)] 1 2 3 show ?thesis by blast
qed


subsection \<open>Status lines\<close>

lemma fmt_d_codes:
  "fmt_d 200 = ''200''" "fmt_d 400 = ''400''" "fmt_d 403 = ''403''" "fmt_d 404 = ''404''"
  "fmt_d 501 = ''501''"
  by (simp_all add: fmt_d_def dec_nat.simps digit_char_def)

lemma getReasonPhrase_codes:
  "getReasonPhrase 200 = Inr (Some ''OK'')"
  "getReasonPhrase 400 = Inr (Some ''Bad Request'')"
  "getReasonPhrase 403 = Inr (Some ''Forbidden'')"
  "getReasonPhrase 404 = Inr (Some ''Not Found'')"
  "getReasonPhrase 501 = Inr (Some ''Not Implemented'')"
  by (simp_all add: getReasonPhrase_def HTTP_StatusCodes_def)

lemma status_buf_codes:
  "status_buf 400 ''Bad Request'' = error_response ''400'' ''Bad Request''"
  "status_buf 403 ''Forbidden'' = error_response ''403'' ''Forbidden''"
  "status_buf 404 ''Not Found'' = error_response ''404'' ''Not Found''"
  "status_buf 501 ''Not Implemented'' = error_response ''501'' ''Not Implemented''"
  by (simp_all add: status_buf_def error_response_def fmt_d_codes)

lemma sendStatusLine_thr_codes:
  "sendStatusLine_thr 400 out = Inr (out @ error_response ''400'' ''Bad Request'')"
  "sendStatusLine_thr 403 out = Inr (out @ error_response ''403'' ''Forbidden'')"
  "sendStatusLine_thr 404 out = Inr (out @ error_response ''404'' ''Not Found'')"
  "sendStatusLine_thr 501 out = Inr (out @ error_response ''501'' ''Not Implemented'')"
  by (simp_all add: sendStatusLine_thr_def getReasonPhrase_codes status_buf_codes)

lemma c_div_codes:
  "c_div 200 100 = 2" "c_div 400 100 = 4" "c_div 404 100 = 4" "c_div 501 100 = 5"
  by (simp_all add: c_div_def)

lemma sendStatusLine_fork_codes:
  "sendStatusLine_fork 400 (a, out) =
     Inr (a\<lparr>num_four := num_four a + 1\<rparr>, out @ error_response ''400'' ''Bad Request'')"
  "sendStatusLine_fork 404 (a, out) =
     Inr (a\<lparr>num_four := num_four a + 1\<rparr>, out @ error_response ''404'' ''Not Found'')"
  "sendStatusLine_fork 501 (a, out) =
     Inr (a\<lparr>num_five := num_five a + 1\<rparr>, out @ error_response ''501'' ''Not Implemented'')"
  by (simp_all add: sendStatusLine_fork_def getReasonPhrase_codes status_buf_codes c_div_codes)

subsection \<open>Requests that are not implemented\<close>






subsection \<open>Request URIs that climb out of the document root\<close>









subsection \<open>A connection that ends before the request line\<close>

text \<open>
  C4, as amended. When the first \<^verbatim>\<open>fgets\<close> fails, the request ends with status 400
  without a response: nothing is sent on the connection, in the fork version the counters
  stay as they were, and only the log line names \<^verbatim>\<open>400 Bad Request\<close>.
\<close>

theorem eof_before_request_line:
  assumes "fgets 1000 input = None"
  shows "(\<exists>r. thr_request e webRoot clntAddr input = Inr r \<and> status r = 400 \<and> sent r = [] \<and>
            logged r = inet_ntoa clntAddr @ '' '' @ [DQUOTE] @ ''  '' @ [DQUOTE] @
                       '' 400 Bad Request'' @ [LF]) \<and>
         (\<exists>r. main_child e webRoot clntAddr pid a input = Inr r \<and> status r = 400 \<and>
            sent r = [] \<and> area r = a \<and>
            logged r = inet_ntoa clntAddr @ '' ('' @ fmt_d pid @ '') '' @ [DQUOTE] @ ''  '' @
                       [DQUOTE] @ '' 400 Bad Request'' @ [LF])"
  using assms
  by (simp add: thr_request_def main_child_def loop_end_thr_def loop_end_fork_def
      getReasonPhrase_codes fmt_d_codes fmt_s_def)

theorem eof_before_request_line_witness:
  "fgets 1000 [] = None \<and>
   (\<exists>r. thr_request no_files ''/www'' (127, 0, 0, 1) [] = Inr r \<and> status r = 400 \<and>
      sent r = []) \<and>
   (\<exists>r. main_child no_files ''/www'' (127, 0, 0, 1) 4242 area_init [] = Inr r \<and>
      status r = 400 \<and> sent r = [] \<and> area r = area_init)"
proof -
  have h: "fgets 1000 [] = None" by (simp add: fgets_def)
  from h eof_before_request_line[OF h, of no_files "''/www''" "(127, 0, 0, 1)" 4242 area_init]
  show ?thesis by blast
qed

text \<open>
  As the specification states it, the property fails: on a connection that is closed at once the thread-pool
  version sends nothing, so no status line reaches the client.
\<close>

theorem eof_sends_nothing:
  "thr_request no_files ''/www'' (127, 0, 0, 1) [] =
     Inr \<lparr>status = 400, sent = [],
          logged = ''127.0.0.1 '' @ [DQUOTE] @ ''  '' @ [DQUOTE] @ '' 400 Bad Request'' @ [LF]\<rparr>"
  by code_simp

subsection \<open>A file that is not there\<close>

lemma skip_headers_CRLF: "skip_headers CRLF = Some []"
  by (subst skip_headers.simps) (simp add: fgets_def CRLF_def cstr_def NUL_def LF_def CR_def)

lemma fgets_missing:
  "fgets 1000 (''GET /missing.html HTTP/1.0'' @ CRLF @ CRLF) =
     Some (''GET /missing.html HTTP/1.0'' @ CRLF, CRLF)"
  by code_simp

lemma tokens_missing:
  "whitespace_tokens (cstr (''GET /missing.html HTTP/1.0'' @ CRLF)) =
     [''GET'', ''/missing.html'', ''HTTP/1.0'']"
  by code_simp

lemma thr_request_missing:
  assumes "\<not> is_dir e (webRoot @ ''/missing.html'')"
    and "fopen_rb e (webRoot @ ''/missing.html'') = None"
  shows "\<exists>r. thr_request e webRoot clntAddr (''GET /missing.html HTTP/1.0'' @ CRLF @ CRLF) = Inr r \<and>
           status r = 404 \<and> sent r = error_response ''404'' ''Not Found''"
proof -
  from strtok_three[OF tokens_missing] obtain p1 p2 p3 where
    "strtok (cstr (''GET /missing.html HTTP/1.0'' @ CRLF)) = (Some ''GET'', p1)"
    "strtok p1 = (Some ''/missing.html'', p2)"
    "strtok p2 = (Some ''HTTP/1.0'', p3)" "strtok p3 = (None, [])" by blast
  then show ?thesis
    using assms fgets_missing
    by (simp add: thr_request_def skip_headers_CRLF handleFileRequest_thr_def file_path_def
        sendStatusLine_thr_codes loop_end_thr_def getReasonPhrase_codes)
qed

lemma main_child_missing:
  assumes "\<not> is_dir e (webRoot @ ''/missing.html'')"
    and "fopen_rb e (webRoot @ ''/missing.html'') = None"
  shows "\<exists>r. main_child e webRoot clntAddr pid a (''GET /missing.html HTTP/1.0'' @ CRLF @ CRLF) = Inr r \<and>
           status r = 404 \<and> sent r = error_response ''404'' ''Not Found''"
proof -
  from strtok_three[OF tokens_missing] obtain p1 p2 p3 where
    "strtok (cstr (''GET /missing.html HTTP/1.0'' @ CRLF)) = (Some ''GET'', p1)"
    "strtok p1 = (Some ''/missing.html'', p2)"
    "strtok p2 = (Some ''HTTP/1.0'', p3)" "strtok p3 = (None, [])" by blast
  then show ?thesis
    using assms fgets_missing
    by (simp add: main_child_def skip_headers_CRLF handleFileRequest_fork_def file_path_def
        sendStatusLine_fork_codes loop_end_fork_def getReasonPhrase_codes)
qed

text \<open>
  C5. For the request \<^verbatim>\<open>GET /missing.html HTTP/1.0\<close> followed by a blank line, when the
  path under the document root is no directory and cannot be opened, the bytes sent on the
  connection are the 404 status line, a blank line and the 404 body, and nothing else, in
  the thread-pool version and in the fork version.
\<close>

theorem missing_file_404:
  assumes "\<not> is_dir e (webRoot @ ''/missing.html'')"
    and "fopen_rb e (webRoot @ ''/missing.html'') = None"
  shows "(\<exists>r. thr_request e webRoot clntAddr (''GET /missing.html HTTP/1.0'' @ CRLF @ CRLF) = Inr r \<and>
            status r = 404 \<and>
            sent r = ''HTTP/1.0 404 Not Found'' @ CRLF @ CRLF @ ''<html><body>'' @ [LF] @
                     ''<h1>404 Not Found</h1>'' @ [LF] @ ''</body></html>'' @ [LF]) \<and>
         (\<exists>r. main_child e webRoot clntAddr pid a (''GET /missing.html HTTP/1.0'' @ CRLF @ CRLF) = Inr r \<and>
            status r = 404 \<and>
            sent r = ''HTTP/1.0 404 Not Found'' @ CRLF @ CRLF @ ''<html><body>'' @ [LF] @
                     ''<h1>404 Not Found</h1>'' @ [LF] @ ''</body></html>'' @ [LF])"
  using thr_request_missing[OF assms] main_child_missing[OF assms]
  by (simp add: error_response_def)

theorem missing_file_404_witness:
  "\<not> is_dir no_files (''/www'' @ ''/missing.html'') \<and>
   fopen_rb no_files (''/www'' @ ''/missing.html'') = None \<and>
   (\<exists>r. thr_request no_files ''/www'' (127, 0, 0, 1)
          (''GET /missing.html HTTP/1.0'' @ CRLF @ CRLF) = Inr r \<and>
      sent r = ''HTTP/1.0 404 Not Found'' @ CRLF @ CRLF @ ''<html><body>'' @ [LF] @
               ''<h1>404 Not Found</h1>'' @ [LF] @ ''</body></html>'' @ [LF]) \<and>
   (\<exists>r. main_child no_files ''/www'' (127, 0, 0, 1) 4242 area_init
          (''GET /missing.html HTTP/1.0'' @ CRLF @ CRLF) = Inr r \<and>
      sent r = ''HTTP/1.0 404 Not Found'' @ CRLF @ CRLF @ ''<html><body>'' @ [LF] @
               ''<h1>404 Not Found</h1>'' @ [LF] @ ''</body></html>'' @ [LF])"
proof -
  have h1: "\<not> is_dir no_files (''/www'' @ ''/missing.html'')" by (simp add: no_files_def)
  have h2: "fopen_rb no_files (''/www'' @ ''/missing.html'') = None" by (simp add: no_files_def)
  from h1 h2 missing_file_404[OF h1 h2, of "(127, 0, 0, 1)" 4242 area_init]
  show ?thesis by blast
qed

subsection \<open>The statistics page\<close>

lemma fgets_statistics:
  "fgets 1000 (''GET /statistics HTTP/1.0'' @ CRLF @ CRLF) =
     Some (''GET /statistics HTTP/1.0'' @ CRLF, CRLF)"
  by code_simp

lemma tokens_statistics:
  "whitespace_tokens (cstr (''GET /statistics HTTP/1.0'' @ CRLF)) =
     [''GET'', ''/statistics'', ''HTTP/1.0'']"
  by code_simp

lemma fmt_d_digits: "fmt_d 0 = ''0''" "fmt_d 1 = ''1''" "fmt_d 4 = ''4''" "fmt_d 5 = ''5''"
  by (simp_all add: fmt_d_def dec_nat.simps digit_char_def)

lemma main_child_statistics:
  assumes "after_statistics e = []"
  shows "main_child e webRoot clntAddr pid a (''GET /statistics HTTP/1.0'' @ CRLF @ CRLF) =
    Inr \<lparr>status = 200, sent = showstatistics 200 (a\<lparr>num_two := num_two a + 1\<rparr>) [],
         logged = inet_ntoa clntAddr @ '' ('' @ fmt_d pid @ '') '' @ [DQUOTE] @
                  ''GET /statistics HTTP/1.0'' @ [DQUOTE] @ '' 200 OK'' @ [LF],
         area = a\<lparr>num_two := num_two a + 1\<rparr>\<rparr>"
proof -
  from strtok_three[OF tokens_statistics] obtain p1 p2 p3 where
    "strtok (cstr (''GET /statistics HTTP/1.0'' @ CRLF)) = (Some ''GET'', p1)"
    "strtok p1 = (Some ''/statistics'', p2)"
    "strtok p2 = (Some ''HTTP/1.0'', p3)" "strtok p3 = (None, [])" by blast
  then show ?thesis
    using assms fgets_statistics
    by (simp add: main_child_def skip_headers_CRLF handleFileRequest_fork_def Let_def
        loop_end_fork_def getReasonPhrase_codes fmt_d_codes fmt_s_def)
qed

lemma main_child_statistics_missed:
  assumes "after_statistics e \<noteq> []"
    and "\<not> is_dir e (webRoot @ ''/statistics'')"
    and "fopen_rb e (webRoot @ ''/statistics'') = None"
  shows "main_child e webRoot clntAddr pid a (''GET /statistics HTTP/1.0'' @ CRLF @ CRLF) =
    Inr \<lparr>status = 404, sent = error_response ''404'' ''Not Found'',
         logged = inet_ntoa clntAddr @ '' ('' @ fmt_d pid @ '') '' @ [DQUOTE] @
                  ''GET /statistics HTTP/1.0'' @ [DQUOTE] @ '' 404 Not Found'' @ [LF],
         area = a\<lparr>num_four := num_four a + 1\<rparr>\<rparr>"
proof -
  from strtok_three[OF tokens_statistics] obtain p1 p2 p3 where
    "strtok (cstr (''GET /statistics HTTP/1.0'' @ CRLF)) = (Some ''GET'', p1)"
    "strtok p1 = (Some ''/statistics'', p2)"
    "strtok p2 = (Some ''HTTP/1.0'', p3)" "strtok p3 = (None, [])" by blast
  then show ?thesis
    using assms fgets_statistics
    by (simp add: main_child_def skip_headers_CRLF handleFileRequest_fork_def file_path_def
        sendStatusLine_fork_codes loop_end_fork_def getReasonPhrase_codes fmt_d_codes fmt_s_def)
qed

text \<open>
  C2. \<^verbatim>\<open>handleFileRequest\<close> recognises the request for the statistics page by \<^verbatim>\<open>strcmp\<close>
  with the array \<^verbatim>\<open>statistics\<close>, which holds the 11 characters of \<^verbatim>\<open>/statistics\<close> and no
  terminator. When the byte behind the array is not NUL, the comparison fails for the
  request \<^verbatim>\<open>GET /statistics HTTP/1.0\<close>: it is taken as a request for the file
  \<^verbatim>\<open>statistics\<close> under the document root, and where there is no such file it is answered
  with 404 and counted as a 4xx. No page with the counters is sent.
\<close>

theorem statistics_request_missed:
  assumes "after_statistics e \<noteq> []"
    and "\<not> is_dir e (webRoot @ ''/statistics'')"
    and "fopen_rb e (webRoot @ ''/statistics'') = None"
  shows "\<exists>r. main_child e webRoot clntAddr pid a (''GET /statistics HTTP/1.0'' @ CRLF @ CRLF) = Inr r \<and>
           status r = 404 \<and>
           sent r = ''HTTP/1.0 404 Not Found'' @ CRLF @ CRLF @ ''<html><body>'' @ [LF] @
                    ''<h1>404 Not Found</h1>'' @ [LF] @ ''</body></html>'' @ [LF] \<and>
           area r = a\<lparr>num_four := num_four a + 1\<rparr>"
  by (subst main_child_statistics_missed[OF assms])
    (simp add: error_response_def fmt_s_def)

theorem statistics_request_missed_witness:
  "after_statistics unterminated \<noteq> [] \<and>
   \<not> is_dir unterminated (''/www'' @ ''/statistics'') \<and>
   fopen_rb unterminated (''/www'' @ ''/statistics'') = None \<and>
   (\<exists>r. main_child unterminated ''/www'' (127, 0, 0, 1) 4242
          \<lparr>num_two = 3, num_three = 0, num_four = 1, num_five = 0\<rparr>
          (''GET /statistics HTTP/1.0'' @ CRLF @ CRLF) = Inr r \<and>
      status r = 404 \<and>
      sent r = ''HTTP/1.0 404 Not Found'' @ CRLF @ CRLF @ ''<html><body>'' @ [LF] @
               ''<h1>404 Not Found</h1>'' @ [LF] @ ''</body></html>'' @ [LF] \<and>
      area r = \<lparr>num_two = 3, num_three = 0, num_four = 2, num_five = 0\<rparr>)"
proof -
  have h1: "after_statistics unterminated \<noteq> []" by (simp add: unterminated_def)
  have h2: "\<not> is_dir unterminated (''/www'' @ ''/statistics'')" by (simp add: unterminated_def)
  have h3: "fopen_rb unterminated (''/www'' @ ''/statistics'') = None"
    by (simp add: unterminated_def)
  from statistics_request_missed[OF h1 h2 h3, of "(127, 0, 0, 1)" 4242
      "\<lparr>num_two = 3, num_three = 0, num_four = 1, num_five = 0\<rparr>"]
  obtain r where r: "main_child unterminated ''/www'' (127, 0, 0, 1) 4242
          \<lparr>num_two = 3, num_three = 0, num_four = 1, num_five = 0\<rparr>
          (''GET /statistics HTTP/1.0'' @ CRLF @ CRLF) = Inr r"
    "status r = 404"
    "sent r = ''HTTP/1.0 404 Not Found'' @ CRLF @ CRLF @ ''<html><body>'' @ [LF] @
               ''<h1>404 Not Found</h1>'' @ [LF] @ ''</body></html>'' @ [LF]"
    "area r = \<lparr>num_two = 3, num_three = 0, num_four = 1, num_five = 0\<rparr>\<lparr>num_four :=
                 num_four \<lparr>num_two = 3, num_three = 0, num_four = 1, num_five = 0\<rparr> + 1\<rparr>"
    by blast
  have "area r = \<lparr>num_two = 3, num_three = 0, num_four = 2, num_five = 0\<rparr>"
    using r(4) by simp
  with h1 h2 h3 r(1,2,3) show ?thesis by blast
qed

text \<open>
  When the byte behind the array is NUL, the comparison succeeds and the page is sent.
  With 3 for 2xx and 1 for 4xx in the counters it shows 4 for 2xx, since the request is
  counted before the page is built, and the text \<^verbatim>\<open>Number of 2XX : 3\<close> is nowhere in it.
\<close>

lemma statistics_page_with_terminator:
  assumes "after_statistics e = []" and "num_two a = 3" and "num_four a = 1"
  shows "\<exists>r body.
           main_child e webRoot clntAddr pid a (''GET /statistics HTTP/1.0'' @ CRLF @ CRLF) = Inr r \<and>
           status r = 200 \<and> sent r = ''HTTP/1.0 200 '' @ CRLF @ CRLF @ body \<and>
           sublist ''Number of 2XX : 4'' body \<and> sublist ''Number of 4XX : 1'' body"
proof -
  define r where "r = \<lparr>status = 200, sent = showstatistics 200 (a\<lparr>num_two := num_two a + 1\<rparr>) [],
         logged = inet_ntoa clntAddr @ '' ('' @ fmt_d pid @ '') '' @ [DQUOTE] @
                  ''GET /statistics HTTP/1.0'' @ [DQUOTE] @ '' 200 OK'' @ [LF],
         area = a\<lparr>num_two := num_two a + 1\<rparr>\<rparr>"
  define head where "head = ''<html><body>'' @ [LF] @ ''<h1>Request Statistics</h1>''"
  define mid where "mid = '' '' @ [LF] @
     ''<br>Number of 3XX : '' @ fmt_d (sint (num_three a)) @ '' '' @ [LF] @ ''<br>''"
  define tail where "tail = '' '' @ [LF] @
     ''<br>Number of 5XX : '' @ fmt_d (sint (num_five a)) @ '' '' @ [LF] @
     ''<br>Sum : '' @ fmt_d (sint (4 + num_three a + 1 + num_five a)) @ '' '' @ [LF] @
     ''</body></html>'' @ [LF]"
  define body where "body = head @ ''Number of 2XX : 4'' @ mid @ ''Number of 4XX : 1'' @ tail"
  have 0: "main_child e webRoot clntAddr pid a (''GET /statistics HTTP/1.0'' @ CRLF @ CRLF) = Inr r"
    unfolding r_def by (rule main_child_statistics[OF assms(1)])
  have 1: "sent r = ''HTTP/1.0 200 '' @ CRLF @ CRLF @ body"
    using assms(2,3)
    by (simp add: r_def showstatistics_def body_def head_def mid_def tail_def fmt_d_codes
        fmt_d_digits)
  have 2: "sublist ''Number of 2XX : 4'' body"
    unfolding body_def by (rule sublist_appendI)
  have "sublist ''Number of 4XX : 1'' ((head @ ''Number of 2XX : 4'' @ mid) @ ''Number of 4XX : 1'' @ tail)"
    by (rule sublist_appendI)
  then have 3: "sublist ''Number of 4XX : 1'' body"
    by (simp add: body_def)
  have "status r = 200" by (simp add: r_def)
  with 0 1 2 3 show ?thesis by blast
qed

lemma statistics_page_shows_four:
  "main_child no_files ''/www'' (127, 0, 0, 1) 4242
     \<lparr>num_two = 3, num_three = 0, num_four = 1, num_five = 0\<rparr>
     (''GET /statistics HTTP/1.0'' @ CRLF @ CRLF) =
   Inr \<lparr>status = 200,
        sent = ''HTTP/1.0 200 '' @ CRLF @ CRLF @ ''<html><body>'' @ [LF] @
               ''<h1>Request Statistics</h1>Number of 2XX : 4 '' @ [LF] @
               ''<br>Number of 3XX : 0 '' @ [LF] @
               ''<br>Number of 4XX : 1 '' @ [LF] @
               ''<br>Number of 5XX : 0 '' @ [LF] @
               ''<br>Sum : 5 '' @ [LF] @
               ''</body></html>'' @ [LF],
        logged = ''127.0.0.1 (4242) '' @ [DQUOTE] @ ''GET /statistics HTTP/1.0'' @ [DQUOTE] @
                 '' 200 OK'' @ [LF],
        area = \<lparr>num_two = 4, num_three = 0, num_four = 1, num_five = 0\<rparr>\<rparr> \<and>
   \<not> sublist ''Number of 2XX : 3''
       (''<html><body>'' @ [LF] @
        ''<h1>Request Statistics</h1>Number of 2XX : 4 '' @ [LF] @
        ''<br>Number of 3XX : 0 '' @ [LF] @
        ''<br>Number of 4XX : 1 '' @ [LF] @
        ''<br>Number of 5XX : 0 '' @ [LF] @
        ''<br>Sum : 5 '' @ [LF] @
        ''</body></html>'' @ [LF])"
proof -
  have h: "after_statistics no_files = []" by (simp add: no_files_def)
  show ?thesis
    by (subst main_child_statistics[OF h])
      (simp add: showstatistics_def dec_nat.simps digit_char_def fmt_d_def
        sublist_Cons_right LF_def)
qed

subsection \<open>The counters of the fork version\<close>

lemma sendStatusLine_fork_200:
  "sendStatusLine_fork 200 (a, out) =
     Inr (a\<lparr>num_two := num_two a + 1\<rparr>, out @ status_buf 200 ''OK'')"
  by (simp add: sendStatusLine_fork_def getReasonPhrase_codes c_div_codes)

lemma error_response_nonempty: "error_response c r \<noteq> []"
  by (simp add: error_response_def)

lemma handleFileRequest_fork_counts:
  "\<exists>c a' out. handleFileRequest_fork e webRoot uri (a, []) = Inr (c, a', out) \<and>
     (c = 200 \<and> a' = a\<lparr>num_two := num_two a + 1\<rparr> \<or>
      c = 404 \<and> a' = a\<lparr>num_four := num_four a + 1\<rparr>)"
  by (auto simp: handleFileRequest_fork_def Let_def sendStatusLine_fork_codes
      sendStatusLine_fork_200 split: option.splits)

lemma main_child_counts:
  "\<exists>r. main_child e webRoot clntAddr pid a input = Inr r \<and>
     (status r = 200 \<or> status r = 400 \<or> status r = 404 \<or> status r = 501) \<and>
     area r = (if answered r then count_status (c_div (status r) 100) a else a)"
proof -
  define P :: "halt + fresponse \<Rightarrow> bool" where
    "P = (\<lambda>res. \<exists>r. res = Inr r \<and>
       (status r = 200 \<or> status r = 400 \<or> status r = 404 \<or> status r = 501) \<and>
       area r = (if answered r then count_status (c_div (status r) 100) a else a))"
  have reof: "P (loop_end_fork clntAddr pid m u v 400 (a, []))" for m u v
    by (simp add: P_def loop_end_fork_def getReasonPhrase_codes answered_def)
  have r501: "P (case sendStatusLine_fork 501 (a, []) of Inl f \<Rightarrow> Inl f
            | Inr st \<Rightarrow> loop_end_fork clntAddr pid m u v 501 st)" for m u v
    by (simp add: P_def sendStatusLine_fork_codes loop_end_fork_def getReasonPhrase_codes
        answered_def count_status_def c_div_codes)
  have r400: "P (case sendStatusLine_fork 400 (a, []) of Inl f \<Rightarrow> Inl f
            | Inr st \<Rightarrow> loop_end_fork clntAddr pid m u v 400 st)" for m u v
    by (simp add: P_def sendStatusLine_fork_codes loop_end_fork_def getReasonPhrase_codes
        answered_def count_status_def c_div_codes error_response_nonempty)
  have rfile: "P (case handleFileRequest_fork e webRoot uri (a, []) of Inl f \<Rightarrow> Inl f
       | Inr (statusCode, st) \<Rightarrow> loop_end_fork clntAddr pid m u v statusCode st)" for uri m u v
    using handleFileRequest_fork_counts[of e webRoot uri a]
    by (auto simp: P_def loop_end_fork_def getReasonPhrase_codes answered_def
        count_status_def c_div_codes)
  have "P (main_child e webRoot clntAddr pid a input)"
    by (simp add: main_child_def Let_def reof r501 r400 rfile
        split: option.splits prod.splits)
  then show ?thesis by (simp add: P_def)
qed

lemma bucket_count_Cons:
  "bucket_count d (r # rs) =
     (if answered r \<and> c_div (status r) 100 = d then 1 else 0) + bucket_count d rs"
  by (simp add: bucket_count_def)

lemma serve_fork_counts:
  "\<exists>rs a'. serve_fork e webRoot a conns = Inr (rs, a') \<and> length rs = length conns \<and>
     (\<forall>r\<in>set rs. status r = 200 \<or> status r = 400 \<or> status r = 404 \<or> status r = 501) \<and>
     num_two a' = num_two a + of_nat (bucket_count 2 rs) \<and>
     num_three a' = num_three a + of_nat (bucket_count 3 rs) \<and>
     num_four a' = num_four a + of_nat (bucket_count 4 rs) \<and>
     num_five a' = num_five a + of_nat (bucket_count 5 rs)"
proof (induction conns arbitrary: a)
  case Nil
  then show ?case by (simp add: bucket_count_def)
next
  case (Cons conn conns)
  obtain clntAddr pid input where conn: "conn = (clntAddr, pid, input)" by (cases conn)
  from main_child_counts[of e webRoot clntAddr pid a input] obtain r where
    r: "main_child e webRoot clntAddr pid a input = Inr r"
       "status r = 200 \<or> status r = 400 \<or> status r = 404 \<or> status r = 501"
       "area r = (if answered r then count_status (c_div (status r) 100) a else a)" by blast
  from Cons.IH[of "area r"] obtain rs a' where
    rs: "serve_fork e webRoot (area r) conns = Inr (rs, a')" "length rs = length conns"
       "\<forall>r\<in>set rs. status r = 200 \<or> status r = 400 \<or> status r = 404 \<or> status r = 501"
       "num_two a' = num_two (area r) + of_nat (bucket_count 2 rs)"
       "num_three a' = num_three (area r) + of_nat (bucket_count 3 rs)"
       "num_four a' = num_four (area r) + of_nat (bucket_count 4 rs)"
       "num_five a' = num_five (area r) + of_nat (bucket_count 5 rs)" by blast
  have "serve_fork e webRoot a (conn # conns) = Inr (r # rs, a')"
    using r(1) rs(1) conn by simp
  moreover have "num_two a' = num_two a + of_nat (bucket_count 2 (r # rs))"
    "num_three a' = num_three a + of_nat (bucket_count 3 (r # rs))"
    "num_four a' = num_four a + of_nat (bucket_count 4 (r # rs))"
    "num_five a' = num_five a + of_nat (bucket_count 5 (r # rs))"
    using r(2,3) rs(4-7)
    by (auto simp: bucket_count_Cons count_status_def c_div_codes)
  ultimately show ?case using r(2) rs(2,3) by auto
qed

lemma bucket_count_sum:
  assumes "\<forall>r\<in>set rs. status r = 200 \<or> status r = 400 \<or> status r = 404 \<or> status r = 501"
  shows "bucket_count 2 rs + bucket_count 3 rs + bucket_count 4 rs + bucket_count 5 rs =
         length (filter answered rs)"
  using assms by (induction rs) (auto simp: bucket_count_Cons bucket_count_def c_div_codes)

lemma bucket_count_le: "bucket_count d rs \<le> length rs"
  by (simp add: bucket_count_def)

lemma sint_of_nat_small:
  assumes "n < 2 ^ 31"
  shows "sint (of_nat n :: 32 word) = int n"
proof -
  have "sint (of_nat n :: 32 word) = signed_take_bit 31 (int n)"
    by (simp add: signed_of_nat)
  also have "\<dots> = int n"
    using assms by (intro signed_take_bit_int_eq_self) auto
  finally show ?thesis .
qed

text \<open>
  C3, as amended. After the fork version has run \<open>N\<close> request lifecycles, \<open>N\<close> below
  \<open>2 ^ 31\<close>, from the zeroed counters, every bucket holds the number of answered lifecycles
  whose status code has the bucket's hundreds digit, and the four buckets add up to the
  number of answered lifecycles: a lifecycle that sends a response increments exactly one
  bucket, and a lifecycle that ends with 400 at an early end of input sends nothing and
  increments none.
\<close>

theorem counters_count_answered:
  assumes "length conns < 2 ^ 31"
  shows "\<exists>rs a. serve_fork e webRoot area_init conns = Inr (rs, a) \<and> length rs = length conns \<and>
           sint (num_two a) = int (bucket_count 2 rs) \<and>
           sint (num_three a) = int (bucket_count 3 rs) \<and>
           sint (num_four a) = int (bucket_count 4 rs) \<and>
           sint (num_five a) = int (bucket_count 5 rs) \<and>
           sint (num_two a) + sint (num_three a) + sint (num_four a) + sint (num_five a) =
             int (length (filter answered rs))"
proof -
  from serve_fork_counts[of e webRoot area_init conns] obtain rs a where
    rs: "serve_fork e webRoot area_init conns = Inr (rs, a)" "length rs = length conns"
       "\<forall>r\<in>set rs. status r = 200 \<or> status r = 400 \<or> status r = 404 \<or> status r = 501"
       "num_two a = of_nat (bucket_count 2 rs)"
       "num_three a = of_nat (bucket_count 3 rs)"
       "num_four a = of_nat (bucket_count 4 rs)"
       "num_five a = of_nat (bucket_count 5 rs)"
    by (auto simp: area_init_def)
  have small: "bucket_count d rs < 2 ^ 31" for d
    using bucket_count_le[of d rs] rs(2) assms by simp
  have c: "sint (num_two a) = int (bucket_count 2 rs)"
      "sint (num_three a) = int (bucket_count 3 rs)"
      "sint (num_four a) = int (bucket_count 4 rs)"
      "sint (num_five a) = int (bucket_count 5 rs)"
    using rs(4-7) small by (simp_all add: sint_of_nat_small)
  have "sint (num_two a) + sint (num_three a) + sint (num_four a) + sint (num_five a) =
             int (length (filter answered rs))"
    unfolding c using bucket_count_sum[OF rs(3)] by linarith
  with rs(1,2) c show ?thesis by blast
qed

theorem counters_count_answered_witness:
  "length three_connections < 2 ^ 31 \<and>
   (\<exists>rs a. serve_fork no_files ''/www'' area_init three_connections = Inr (rs, a) \<and>
      length rs = length three_connections \<and>
      sint (num_two a) = int (bucket_count 2 rs) \<and>
      sint (num_three a) = int (bucket_count 3 rs) \<and>
      sint (num_four a) = int (bucket_count 4 rs) \<and>
      sint (num_five a) = int (bucket_count 5 rs) \<and>
      sint (num_two a) + sint (num_three a) + sint (num_four a) + sint (num_five a) =
        int (length (filter answered rs)))"
proof -
  have h: "length three_connections < 2 ^ 31"
    by (simp add: three_connections_def)
  from h counters_count_answered[OF h, of no_files "''/www''"] show ?thesis by blast
qed

text \<open>
  As the specification states it, the property fails: one lifecycle on a connection that is closed at once ends
  with status 400 and leaves all four counters at 0.
\<close>

theorem eof_lifecycle_not_counted:
  "serve_fork no_files ''/www'' area_init [((127, 0, 0, 1), 4242, [])] =
     Inr ([\<lparr>status = 400, sent = [],
            logged = ''127.0.0.1 (4242) '' @ [DQUOTE] @ ''  '' @ [DQUOTE] @
                     '' 400 Bad Request'' @ [LF],
            area = \<lparr>num_two = 0, num_three = 0, num_four = 0, num_five = 0\<rparr>\<rparr>],
          \<lparr>num_two = 0, num_three = 0, num_four = 0, num_five = 0\<rparr>)"
  by (simp add: main_child_def fgets_def loop_end_fork_def getReasonPhrase_codes area_init_def
      dec_nat.simps digit_char_def fmt_d_def fmt_s_def)

subsection \<open>The log line\<close>













text \<open>
  The address in the log line of the thread-pool version is the one \<^verbatim>\<open>getsockname\<close>
  stores, the server's end of the connection, here 192.168.1.1, and not the peer's.
\<close>

lemma thr_worker_logs_socket_address:
  "thr_worker_turn no_files ''/www''
     \<lparr>peer_addr = (10, 0, 0, 7), sock_addr = (192, 168, 1, 1), incoming = []\<rparr> =
   Inr \<lparr>status = 400, sent = [],
        logged = ''192.168.1.1 '' @ [DQUOTE] @ ''  '' @ [DQUOTE] @ '' 400 Bad Request'' @ [LF]\<rparr>"
  by (simp add: thr_worker_turn_def thr_request_def fgets_def loop_end_thr_def
      getReasonPhrase_codes dec_nat.simps digit_char_def fmt_d_def fmt_s_def)

lemma main_logs_peer_address:
  "main_turn no_files ''/www'' 4242 area_init
     \<lparr>peer_addr = (10, 0, 0, 7), sock_addr = (192, 168, 1, 1), incoming = []\<rparr> =
   Inr \<lparr>status = 400, sent = [],
        logged = ''10.0.0.7 (4242) '' @ [DQUOTE] @ ''  '' @ [DQUOTE] @ '' 400 Bad Request'' @ [LF],
        area = area_init\<rparr>"
  by (simp add: main_turn_def main_child_def fgets_def loop_end_fork_def
      getReasonPhrase_codes dec_nat.simps digit_char_def fmt_d_def fmt_s_def)

subsection \<open>The queue\<close>

lemma nodes_length: "nodes h a n = Some ps \<Longrightarrow> length ps = n"
  by (induction n arbitrary: a ps) (auto split: if_splits option.splits)

lemma nodes_alloc: "nodes h a n = Some ps \<Longrightarrow> (p, s) \<in> set ps \<Longrightarrow> h p \<noteq> None"
  by (induction n arbitrary: a ps) (auto split: if_splits option.splits)

lemma nodes_unique: "nodes h a n = Some ps \<Longrightarrow> nodes h a n' = Some ps' \<Longrightarrow> n = n'"
proof (induction n arbitrary: a ps n' ps')
  case 0
  then show ?case by (cases n') (auto split: if_splits option.splits)
next
  case (Suc n)
  then show ?case by (cases n') (auto split: if_splits option.splits)
qed

lemma nodes_from:
  "nodes h a n = Some ps \<Longrightarrow> (p, s) \<in> set ps \<Longrightarrow> \<exists>k qs. k \<le> n \<and> k > 0 \<and> nodes h (Some p) k = Some qs"
proof (induction n arbitrary: a ps)
  case 0
  then show ?case by (auto split: if_splits)
next
  case (Suc n)
  from Suc.prems(1) obtain q m ps' where
    a: "a = Some q" "h q = Some m" "nodes h (next_m m) n = Some ps'" "ps = (q, sock m) # ps'"
    by (auto split: option.splits)
  show ?case
  proof (cases "(p, s) \<in> set ps'")
    case True
    from Suc.IH[OF a(3) True] show ?thesis by (meson le_SucI)
  next
    case False
    then have "p = q" using Suc.prems(2) a(4) by auto
    then show ?thesis using Suc.prems(1) a(1) by (intro exI[of _ "Suc n"]) auto
  qed
qed

lemma nodes_distinct: "nodes h a n = Some ps \<Longrightarrow> distinct (map fst ps)"
proof (induction n arbitrary: a ps)
  case 0
  then show ?case by (auto split: if_splits)
next
  case (Suc n)
  from Suc.prems(1) obtain q m ps' where
    a: "a = Some q" "h q = Some m" "nodes h (next_m m) n = Some ps'" "ps = (q, sock m) # ps'"
    by (auto split: option.splits)
  have "q \<notin> fst ` set ps'"
  proof
    assume "q \<in> fst ` set ps'"
    then obtain s where "(q, s) \<in> set ps'" by auto
    from nodes_from[OF a(3) this] obtain k qs where
      k: "k \<le> n" "nodes h (Some q) k = Some qs" by blast
    from nodes_unique[OF k(2)] Suc.prems(1) a(1) have "k = Suc n" by blast
    then show False using k(1) by simp
  qed
  then show ?case using Suc.IH[OF a(3)] a(4) by simp
qed

lemma nodes_upd: "nodes h a n = Some ps \<Longrightarrow> p \<notin> fst ` set ps \<Longrightarrow> nodes (h(p := x)) a n = Some ps"
  by (induction n arbitrary: a ps) (auto split: if_splits option.splits)

lemma nodes_snoc:
  assumes "nodes h a n = Some ps" "ps \<noteq> []" "fst (last ps) = l" "h p = None" "h l = Some m"
  shows "nodes (h(p \<mapsto> \<lparr>sock = s, next_m = None\<rparr>, l \<mapsto> m\<lparr>next_m := Some p\<rparr>)) a (Suc n) =
           Some (ps @ [(p, s)])"
  using assms
proof (induction n arbitrary: a ps)
  case 0
  then show ?case by (auto split: if_splits)
next
  case (Suc n)
  let ?h = "h(p \<mapsto> \<lparr>sock = s, next_m = None\<rparr>, l \<mapsto> m\<lparr>next_m := Some p\<rparr>)"
  from Suc.prems(1) obtain q mq ps' where
    a: "a = Some q" "h q = Some mq" "nodes h (next_m mq) n = Some ps'" "ps = (q, sock mq) # ps'"
    by (auto split: option.splits)
  have pl: "p \<noteq> l" using Suc.prems(4,5) by auto
  have pq: "p \<noteq> q" using Suc.prems(4) a(2) by auto
  show ?case
  proof (cases "ps' = []")
    case True
    then have "n = 0" using nodes_length[OF a(3)] by simp
    then have "next_m mq = None" using a(3) by (auto split: if_splits)
    moreover have "l = q" using True a(4) Suc.prems(3) by simp
    moreover have "m = mq" using \<open>l = q\<close> Suc.prems(5) a(2) by simp
    ultimately show ?thesis using a True pl pq \<open>n = 0\<close> by simp
  next
    case False
    have "l \<in> fst ` set ps'" using False Suc.prems(3) a(4) by (metis last_ConsR last_in_set imageI)
    moreover have "q \<notin> fst ` set ps'" using nodes_distinct[OF Suc.prems(1)] a(4) by simp
    ultimately have ql: "q \<noteq> l" by auto
    have "fst (last ps') = l" using False Suc.prems(3) a(4) by simp
    from Suc.IH[OF a(3) False this Suc.prems(4,5)]
    have ih: "nodes ?h (next_m mq) (Suc n) = Some (ps' @ [(p, s)])" .
    have hq: "?h q = Some mq" using a(2) ql pq by simp
    have "nodes ?h (Some q) (Suc (Suc n)) =
            map_option (Cons (q, sock mq)) (nodes ?h (next_m mq) (Suc n))"
      by (subst nodes.simps(2)) (simp add: hq del: nodes.simps fun_upd_apply)
    then show ?thesis using ih a(1,4) by (simp del: nodes.simps fun_upd_apply)
  qed
qed

lemma queue_put_inv:
  assumes inv: "queue_inv (q, h)" and fresh: "h p = None" and room: "length_q q + 1 \<noteq> 0"
  shows "\<exists>st'. queue_put (q, h) (Some p) s = Inr st' \<and> queue_inv st' \<and>
           queued st' = queued (q, h) @ [s] \<and>
           unat (length_q (fst st')) = Suc (unat (length_q q))"
proof -
  from inv obtain ps where
    ps: "nodes h (first q) (unat (length_q q)) = Some ps"
        "last_q q = (if ps = [] then None else Some (fst (last ps)))"
    by (auto simp: queue_inv_def split: option.splits)
  have len: "unat (length_q q + 1) = Suc (unat (length_q q))"
    using room unatSuc[of "length_q q"] by (simp add: add.commute)
  show ?thesis
  proof (cases "length_q q = 0")
    case True
    then have "ps = []" "first q = None" using ps(1) by (auto split: if_splits)
    then show ?thesis
      using True ps by (simp add: queue_put_def queue_inv_def queued_def)
  next
    case False
    then have ne: "ps \<noteq> []" using nodes_length[OF ps(1)] by (auto simp: unat_0_iff)
    then obtain l sl where l: "last ps = (l, sl)" "last_q q = Some l" using ps(2) by (cases "last ps") auto
    have "(l, sl) \<in> set ps" using ne l(1) by (metis last_in_set)
    from nodes_alloc[OF ps(1) this] obtain m where m: "h l = Some m" by auto
    have pl: "p \<noteq> l" using fresh m by auto
    from nodes_snoc[OF ps(1) ne _ fresh m, of s] l(1)
    have "nodes (h(p \<mapsto> \<lparr>sock = s, next_m = None\<rparr>, l \<mapsto> m\<lparr>next_m := Some p\<rparr>)) (first q)
            (Suc (unat (length_q q))) = Some (ps @ [(p, s)])" by simp
    then show ?thesis
      using False l m pl ps(1) len
      by (simp add: queue_put_def queue_inv_def queued_def)
  qed
qed

lemma queue_get_inv:
  assumes inv: "queue_inv (q, h)" and ne: "length_q q \<noteq> 0"
  shows "\<exists>x st'. queue_get (q, h) = Inr (x, st') \<and> queue_inv st' \<and>
           queued (q, h) = x # queued st' \<and>
           unat (length_q (fst st')) = unat (length_q q) - 1"
proof -
  from inv obtain ps where
    ps: "nodes h (first q) (unat (length_q q)) = Some ps"
        "last_q q = (if ps = [] then None else Some (fst (last ps)))"
    by (auto simp: queue_inv_def split: option.splits)
  obtain k where k: "unat (length_q q) = Suc k"
    using ne by (metis unat_0_iff not0_implies_Suc)
  from ps(1) k obtain p m ps' where
    a: "first q = Some p" "h p = Some m" "nodes h (next_m m) k = Some ps'" "ps = (p, sock m) # ps'"
    by (auto split: option.splits)
  have "p \<notin> fst ` set ps'" using nodes_distinct[OF ps(1)] a(4) by simp
  from nodes_upd[OF a(3) this]
  have n': "nodes (h(p := None)) (next_m m) k = Some ps'" .
  have len: "unat (length_q q - 1) = k" using unat_minus_one[OF ne] k by simp
  have one: "length_q q = 1 \<longleftrightarrow> ps' = []"
  proof
    assume "length_q q = 1"
    then have "k = 0" using k by simp
    then show "ps' = []" using nodes_length[OF a(3)] by simp
  next
    assume "ps' = []"
    then have "k = 0" using nodes_length[OF a(3)] by simp
    then have "unat (length_q q) = unat (1 :: 32 word)" using k by simp
    then show "length_q q = 1" by (rule unsigned_word_eqI)
  qed
  show ?thesis
    using ne a n' len one ps k
    by (auto simp: queue_get_def queue_inv_def queued_def)
qed


lemma room_from_fits: "Suc (unat (w :: 32 word)) < 2 ^ 32 \<Longrightarrow> w + 1 \<noteq> 0"
proof
  assume a: "Suc (unat w) < 2 ^ 32" and b: "w + 1 = 0"
  from b have "w = - 1" by (simp add: add_eq_0_iff2)
  then have "unat w = 2 ^ 32 - 1" by (simp add: unsigned_minus_1_eq_mask mask_eq_exp_minus_1)
  then show False using a by simp
qed

lemma run_fifo:
  assumes "queue_inv st" and "fits (unat (length_q (fst st))) ops"
  shows "run ops st \<noteq> Inl NullDeref \<and> run ops st \<noteq> Inl OutOfBounds \<and>
         (\<forall>socks st'. run ops st = Inr (socks, st') \<longrightarrow>
            queue_inv st' \<and> queued st @ pushed ops = socks @ queued st')"
  using assms
proof (induction ops arbitrary: st)
  case Nil
  then show ?case by auto
next
  case (Cons op ops)
  obtain q h where st: "st = (q, h)" by (cases st)
  show ?case
  proof (cases op)
    case (Put pmsg s)
    show ?thesis
    proof (cases pmsg)
      case None
      then show ?thesis using Put st by (simp add: queue_put_def)
    next
      case (Some p)
      show ?thesis
      proof (cases "h p = None")
        case False
        then show ?thesis using Put Some st by simp
      next
        case True
        from Cons.prems(2) Put st have fit: "Suc (unat (length_q q)) < 2 ^ 32"
          "fits (Suc (unat (length_q q))) ops" by simp_all
        from queue_put_inv[OF Cons.prems(1)[unfolded st] True room_from_fits[OF fit(1)], of s]
        obtain st' where st': "queue_put (q, h) (Some p) s = Inr st'" "queue_inv st'"
          "queued st' = queued (q, h) @ [s]"
          "unat (length_q (fst st')) = Suc (unat (length_q q))" by blast
        from Cons.IH[OF st'(2)] fit(2) st'(4)
        have ih: "run ops st' \<noteq> Inl NullDeref \<and> run ops st' \<noteq> Inl OutOfBounds \<and>
           (\<forall>socks st''. run ops st' = Inr (socks, st'') \<longrightarrow>
              queue_inv st'' \<and> queued st' @ pushed ops = socks @ queued st'')" by auto
        have "run (op # ops) st = run ops st'" using Put Some st True st'(1) by simp
        then show ?thesis using ih st'(3) Put st by auto
      qed
    qed
  next
    case Get
    show ?thesis
    proof (cases "length_q q = 0")
      case True
      then show ?thesis using Get st by (simp add: queue_get_def)
    next
      case False
      from queue_get_inv[OF Cons.prems(1)[unfolded st] False]
      obtain x st' where st': "queue_get (q, h) = Inr (x, st')" "queue_inv st'"
        "queued (q, h) = x # queued st'"
        "unat (length_q (fst st')) = unat (length_q q) - 1" by blast
      from Cons.prems(2) Get st have "fits (unat (length_q q) - 1) ops" by simp
      from Cons.IH[OF st'(2)] this st'(4)
      have ih: "run ops st' \<noteq> Inl NullDeref \<and> run ops st' \<noteq> Inl OutOfBounds \<and>
         (\<forall>socks st''. run ops st' = Inr (socks, st'') \<longrightarrow>
            queue_inv st'' \<and> queued st' @ pushed ops = socks @ queued st'')" by auto
      show ?thesis using ih st'(1,3) Get st
        by (auto split: sum.splits)
    qed
  qed
qed

lemma queue_init_inv: "queue_inv (queue_init q, h)"
  by (simp add: queue_inv_def queue_init_def)

lemma queue_init_queued: "queued (queue_init q, h) = []"
  by (simp add: queued_def queue_init_def)







text \<open>
  C8. The invariant of the queue holds after \<^verbatim>\<open>queue_init\<close>; \<^verbatim>\<open>queue_put\<close> returns and keeps
  it when the new block is not one of the allocated ones and \<^verbatim>\<open>length\<close> is not at its
  maximum, \<^verbatim>\<open>queue_get\<close> returns and keeps it when the queue is not empty; and where it
  holds, \<^verbatim>\<open>length\<close> is 0 exactly when \<^verbatim>\<open>first\<close> and \<^verbatim>\<open>last\<close> are both \<^verbatim>\<open>NULL\<close>, and the list
  linked from \<^verbatim>\<open>first\<close> has exactly \<^verbatim>\<open>length\<close> messages and ends at \<^verbatim>\<open>last\<close>.
\<close>

theorem queue_invariant:
  "queue_inv (queue_init q0, h0) \<and>
   (queue_inv (q, h) \<and> h p = None \<and> length_q q + 1 \<noteq> 0 \<longrightarrow>
      (\<exists>st'. queue_put (q, h) (Some p) s = Inr st' \<and> queue_inv st')) \<and>
   (queue_inv (q, h) \<and> length_q q \<noteq> 0 \<longrightarrow>
      (\<exists>x st'. queue_get (q, h) = Inr (x, st') \<and> queue_inv st')) \<and>
   (queue_inv (q, h) \<longrightarrow>
      (length_q q = 0 \<longleftrightarrow> first q = None \<and> last_q q = None) \<and>
      (\<exists>ps. nodes h (first q) (unat (length_q q)) = Some ps \<and> length ps = unat (length_q q) \<and>
         last_q q = (if ps = [] then None else Some (fst (last ps)))))"
proof (intro conjI impI)
  show "queue_inv (queue_init q0, h0)" by (rule queue_init_inv)
next
  assume "queue_inv (q, h) \<and> h p = None \<and> length_q q + 1 \<noteq> 0"
  then show "\<exists>st'. queue_put (q, h) (Some p) s = Inr st' \<and> queue_inv st'"
    using queue_put_inv[of q h p s] by blast
next
  assume "queue_inv (q, h) \<and> length_q q \<noteq> 0"
  then show "\<exists>x st'. queue_get (q, h) = Inr (x, st') \<and> queue_inv st'"
    using queue_get_inv[of q h] by blast
next
  assume inv: "queue_inv (q, h)"
  then obtain ps where
    ps: "nodes h (first q) (unat (length_q q)) = Some ps"
        "last_q q = (if ps = [] then None else Some (fst (last ps)))"
    by (auto simp: queue_inv_def split: option.splits)
  show "length_q q = 0 \<longleftrightarrow> first q = None \<and> last_q q = None"
  proof
    assume "length_q q = 0"
    then show "first q = None \<and> last_q q = None" using ps by (auto split: if_splits)
  next
    assume "first q = None \<and> last_q q = None"
    then have "unat (length_q q) = 0" using ps(1) by (cases "unat (length_q q)") auto
    then show "length_q q = 0" by (simp add: unat_0_iff)
  qed
  show "\<exists>ps. nodes h (first q) (unat (length_q q)) = Some ps \<and> length ps = unat (length_q q) \<and>
         last_q q = (if ps = [] then None else Some (fst (last ps)))"
    using ps nodes_length[OF ps(1)] by blast
qed

theorem queue_invariant_witness:
  "queue_inv one_queued \<and> snd one_queued 1 = None \<and> length_q (fst one_queued) + 1 \<noteq> 0 \<and>
   length_q (fst one_queued) \<noteq> 0 \<and>
   (\<exists>st'. queue_put one_queued (Some 1) 8 = Inr st' \<and> queue_inv st') \<and>
   (\<exists>x st'. queue_get one_queued = Inr (x, st') \<and> queue_inv st') \<and>
   (length_q (fst one_queued) = 0) =
     (first (fst one_queued) = None \<and> last_q (fst one_queued) = None)"
proof -
  obtain q h where qh: "one_queued = (q, h)" by (cases one_queued)
  have i: "queue_inv (q, h)"
    using qh by (auto simp: one_queued_def queue_inv_def)
  have f: "h 1 = None" using qh by (auto simp: one_queued_def)
  have r: "length_q q + 1 \<noteq> 0" using qh by (auto simp: one_queued_def)
  have n: "length_q q \<noteq> 0" using qh by (auto simp: one_queued_def)
  note t = queue_invariant[of q h q h 1 8]
  have "\<exists>st'. queue_put (q, h) (Some 1) 8 = Inr st' \<and> queue_inv st'"
    using t i f r by blast
  moreover have "\<exists>x st'. queue_get (q, h) = Inr (x, st') \<and> queue_inv st'"
    using t i n by blast
  moreover have "(length_q q = 0) = (first q = None \<and> last_q q = None)"
    using t i by blast
  ultimately show ?thesis unfolding qh using i f r n by simp
qed

subsection \<open>Reason phrases\<close>

text \<open>
  C10. \<^verbatim>\<open>getReasonPhrase\<close> returns for every integer: for a status code of the table the
  reason phrase of its entry, for every other integer (0 and the negative ones among them)
  the string \<^verbatim>\<open>Unknown Status Code\<close>; the result is never a fault and never \<^verbatim>\<open>NULL\<close>.
\<close>

theorem getReasonPhrase_total:
  "getReasonPhrase c =
     Inr (Some (case map_of HTTP_StatusCodes c of
                  Some (Some reason) \<Rightarrow> reason
                | _ \<Rightarrow> ''Unknown Status Code''))"
  by (simp add: getReasonPhrase_def HTTP_StatusCodes_def)

end
